theory Spec2Isabelle
  imports Main "HOL-Library.Sublist" "HOL-Library.Char_ord" "HOL-Library.List_Lexorder"
begin

section \<open>External processes\<close>

text \<open>
  Every operation of the package builds an argument vector, runs the external
  executable and looks at what comes back.  The external world is a parameter: an
  \<open>exec\<close> takes the argument vector (program name first) and the world before the call
  and gives the outcome of the process and the world after it.
\<close>

datatype outcome = Exited int string | NotStarted

datatype proc_error = ExitError int | StartError

type_synonym 'w exec = "string list \<Rightarrow> 'w \<Rightarrow> outcome \<times> 'w"

text \<open>
  \<open>cmd.Run()\<close> of os/exec: nil exactly when the process started and left with
  status 0.
\<close>

fun cmd_Run :: "outcome \<Rightarrow> proc_error option" where
  "cmd_Run (Exited c out) = (if c = 0 then None else Some (ExitError c))"
| "cmd_Run NotStarted = Some StartError"

text \<open>
  \<open>cmd.Output()\<close> of os/exec: the captured standard output together with the same
  error as \<open>cmd.Run()\<close>.  A process that never started has written nothing.
\<close>

fun cmd_Output :: "outcome \<Rightarrow> string \<times> proc_error option" where
  "cmd_Output (Exited c out) = (out, cmd_Run (Exited c out))"
| "cmd_Output NotStarted = ([], Some StartError)"

text \<open>
  Recording what an operation hands to the external tool and what comes back: the same
  \<open>exec\<close>, with a log of argument vector and outcome beside the world.
\<close>

type_synonym invocation = "string list \<times> outcome"

definition traced :: "'w exec \<Rightarrow> ('w \<times> invocation list) exec" where
  "traced X argv s = (case s of (w, log) \<Rightarrow>
     (case X argv w of (oc, w') \<Rightarrow> (oc, (w', log @ [(argv, oc)]))))"

definition exits_cleanly :: "outcome \<Rightarrow> bool" where
  "exits_cleanly oc = (case oc of Exited c out \<Rightarrow> c = 0 | NotStarted \<Rightarrow> False)"

definition exits_nonzero :: "outcome \<Rightarrow> bool" where
  "exits_nonzero oc = (case oc of Exited c out \<Rightarrow> c \<noteq> 0 | NotStarted \<Rightarrow> False)"

section \<open>strings.TrimSpace and strings.Split\<close>

text \<open>
  Go strings are byte sequences holding UTF-8.  \<open>unicode.IsSpace\<close> accepts the code
  points of the Unicode property White_Space; \<open>white_space\<close> lists their UTF-8
  encodings: U+0009 to U+000D, U+0020, U+0085, U+00A0, U+1680, U+2000 to U+200A,
  U+2028, U+2029, U+202F, U+205F and U+3000.
\<close>

definition white_space :: "string list" where
  "white_space =
    [[CHR 0x09], [CHR 0x0A], [CHR 0x0B], [CHR 0x0C], [CHR 0x0D], [CHR 0x20],
     [CHR 0xC2, CHR 0x85], [CHR 0xC2, CHR 0xA0],
     [CHR 0xE1, CHR 0x9A, CHR 0x80],
     [CHR 0xE2, CHR 0x80, CHR 0x80], [CHR 0xE2, CHR 0x80, CHR 0x81],
     [CHR 0xE2, CHR 0x80, CHR 0x82], [CHR 0xE2, CHR 0x80, CHR 0x83],
     [CHR 0xE2, CHR 0x80, CHR 0x84], [CHR 0xE2, CHR 0x80, CHR 0x85],
     [CHR 0xE2, CHR 0x80, CHR 0x86], [CHR 0xE2, CHR 0x80, CHR 0x87],
     [CHR 0xE2, CHR 0x80, CHR 0x88], [CHR 0xE2, CHR 0x80, CHR 0x89],
     [CHR 0xE2, CHR 0x80, CHR 0x8A],
     [CHR 0xE2, CHR 0x80, CHR 0xA8], [CHR 0xE2, CHR 0x80, CHR 0xA9],
     [CHR 0xE2, CHR 0x80, CHR 0xAF],
     [CHR 0xE2, CHR 0x81, CHR 0x9F],
     [CHR 0xE3, CHR 0x80, CHR 0x80]]"

definition leading_space :: "string \<Rightarrow> string option" where
  "leading_space s = find (\<lambda>t. prefix t s) white_space"

definition trailing_space :: "string \<Rightarrow> string option" where
  "trailing_space s = find (\<lambda>t. suffix t s) white_space"

function TrimLeft :: "string \<Rightarrow> string" where
  "TrimLeft s = (case leading_space s of
                   None \<Rightarrow> s
                 | Some t \<Rightarrow> TrimLeft (drop (length t) s))"
  by pat_completeness auto
termination
proof (relation "measure length")
  show "wf (measure length)" by simp
next
  fix s t assume "leading_space s = Some t"
  then have "t \<in> set white_space" "prefix t s"
    by (auto simp: leading_space_def find_Some_iff)
  then have "t \<noteq> []" "prefix t s"
    by (auto simp: white_space_def)
  then show "(drop (length t) s, s) \<in> measure length"
    by (cases s) (auto simp: prefix_def)
qed

function TrimRight :: "string \<Rightarrow> string" where
  "TrimRight s = (case trailing_space s of
                    None \<Rightarrow> s
                  | Some t \<Rightarrow> TrimRight (take (length s - length t) s))"
  by pat_completeness auto
termination
proof (relation "measure length")
  show "wf (measure length)" by simp
next
  fix s t assume "trailing_space s = Some t"
  then have "t \<in> set white_space" "suffix t s"
    by (auto simp: trailing_space_def find_Some_iff)
  then have "t \<noteq> []" "suffix t s"
    by (auto simp: white_space_def)
  then show "(take (length s - length t) s, s) \<in> measure length"
    by (cases s) (auto simp: suffix_def)
qed

definition TrimSpace :: "string \<Rightarrow> string" where
  "TrimSpace s = TrimRight (TrimLeft s)"

text \<open>
  \<open>strings.Split(s, sep)\<close> for a one-byte separator: the pieces between the
  separators, so that the empty string gives one empty piece and never no piece.
\<close>

fun Split :: "string \<Rightarrow> char \<Rightarrow> string list" where
  "Split [] sep = [[]]"
| "Split (c # cs) sep =
     (if c = sep then [] # Split cs sep
      else (case Split cs sep of
              [] \<Rightarrow> [[c]]
            | x # xs \<Rightarrow> (c # x) # xs))"

section \<open>Errors\<close>

text \<open>
  The package builds its errors with \<open>fmt.Errorf\<close>; one constructor stands for one
  format string, and its arguments are the values formatted into it.
  \<^item> \<open>CreationError\<close>: "creating the local tag failed: %v" (CreateLocal);
  \<^item> \<open>PushError\<close>: "pushing the tag to the remote repository failed: %v" (CreateRemote);
  \<^item> \<open>DeletionError\<close>: "deleting the local tag failed: %v" (DeleteLocal);
  \<^item> \<open>RemoteDeletionError\<close>: "deleting the remote tag failed: %v" (DeleteRemote);
  \<^item> \<open>ListingFailed\<close>: "looking up the tag failed: %v" (FindOne, FindMany);
  \<^item> \<open>NoMatch\<close>: "no matching tag found" (FindOne, FindMany);
  \<^item> \<open>WrappedBulkLocal\<close>: "deleting tag %s failed: %v" (DeleteLocalAll);
  \<^item> \<open>WrappedBulkRemote\<close>: "deleting remote tag %s failed: %v" (DeleteRemoteAll).
\<close>

datatype error =
    CreationError proc_error
  | PushError proc_error
  | DeletionError proc_error
  | RemoteDeletionError proc_error
  | ListingFailed proc_error
  | NoMatch
  | WrappedBulkLocal string error
  | WrappedBulkRemote string error

text \<open>The two ways a lookup fails are the NotFoundError of the error taxonomy.\<close>

fun is_NotFoundError :: "error \<Rightarrow> bool" where
  "is_NotFoundError (ListingFailed e) = True"
| "is_NotFoundError NoMatch = True"
| "is_NotFoundError e = False"

section \<open>gittag.go\<close>

definition CreateLocal :: "'w exec \<Rightarrow> string \<Rightarrow> string list \<Rightarrow> 'w \<Rightarrow> error option \<times> 'w" where
  "CreateLocal X tagName message w =
     (let tagMessage = ''chore(release): '' @ tagName;
          tagMessage = (if length message > 0 \<and> message ! 0 \<noteq> [] then message ! 0
                        else tagMessage)
      in case X [''git'', ''tag'', ''-a'', tagName, ''-m'', tagMessage] w of
           (oc, w') \<Rightarrow>
             (case cmd_Run oc of
                Some err \<Rightarrow> (Some (CreationError err), w')
              | None \<Rightarrow> (None, w')))"

definition CreateRemote :: "'w exec \<Rightarrow> string \<Rightarrow> 'w \<Rightarrow> error option \<times> 'w" where
  "CreateRemote X tagName w =
     (case X [''git'', ''push'', ''origin'', tagName] w of
        (oc, w') \<Rightarrow>
          (case cmd_Run oc of
             Some err \<Rightarrow> (Some (PushError err), w')
           | None \<Rightarrow> (None, w')))"

definition CreateTag :: "'w exec \<Rightarrow> string \<Rightarrow> string list \<Rightarrow> 'w \<Rightarrow> error option \<times> 'w" where
  "CreateTag X tagName message w =
     (case CreateLocal X tagName message w of
        (Some err, w') \<Rightarrow> (Some err, w')
      | (None, w') \<Rightarrow>
          (case CreateRemote X tagName w' of
             (Some err, w'') \<Rightarrow> (Some err, w'')
           | (None, w'') \<Rightarrow> (None, w'')))"

section \<open>find.go\<close>

definition FindOne :: "'w exec \<Rightarrow> string \<Rightarrow> 'w \<Rightarrow> (error + string) \<times> 'w" where
  "FindOne X pattern w =
     (case X [''git'', ''tag'', ''-l'', pattern] w of
        (oc, w') \<Rightarrow>
          (case cmd_Output oc of
             (output, Some err) \<Rightarrow> (Inl (ListingFailed err), w')
           | (output, None) \<Rightarrow>
               (let tags = Split (TrimSpace output) (CHR 0x0A)
                in if length tags = 0 \<or> (length tags = 1 \<and> tags ! 0 = [])
                   then (Inl NoMatch, w')
                   else (Inr (tags ! 0), w'))))"

definition FindMany :: "'w exec \<Rightarrow> string \<Rightarrow> 'w \<Rightarrow> (error + string list) \<times> 'w" where
  "FindMany X pattern w =
     (case X [''git'', ''tag'', ''-l'', pattern] w of
        (oc, w') \<Rightarrow>
          (case cmd_Output oc of
             (output, Some err) \<Rightarrow> (Inl (ListingFailed err), w')
           | (output, None) \<Rightarrow>
               (let tags = Split (TrimSpace output) (CHR 0x0A)
                in if length tags = 0 \<or> (length tags = 1 \<and> tags ! 0 = [])
                   then (Inl NoMatch, w')
                   else (Inr tags, w'))))"

section \<open>delete.go\<close>

definition DeleteLocal :: "'w exec \<Rightarrow> string \<Rightarrow> 'w \<Rightarrow> error option \<times> 'w" where
  "DeleteLocal X tagName w =
     (case X [''git'', ''tag'', ''-d'', tagName] w of
        (oc, w') \<Rightarrow>
          (case cmd_Run oc of
             Some err \<Rightarrow> (Some (DeletionError err), w')
           | None \<Rightarrow> (None, w')))"

definition DeleteRemote :: "'w exec \<Rightarrow> string \<Rightarrow> 'w \<Rightarrow> error option \<times> 'w" where
  "DeleteRemote X tagName w =
     (case X [''git'', ''push'', ''origin'', ''--delete'', tagName] w of
        (oc, w') \<Rightarrow>
          (case cmd_Run oc of
             Some err \<Rightarrow> (Some (RemoteDeletionError err), w')
           | None \<Rightarrow> (None, w')))"

definition DeleteTag :: "'w exec \<Rightarrow> string \<Rightarrow> 'w \<Rightarrow> error option \<times> 'w" where
  "DeleteTag X tagName w =
     (case DeleteLocal X tagName w of
        (Some err, w') \<Rightarrow> (Some err, w')
      | (None, w') \<Rightarrow>
          (case DeleteRemote X tagName w' of
             (Some err, w'') \<Rightarrow> (Some err, w'')
           | (None, w'') \<Rightarrow> (None, w'')))"

text \<open>The iteration \<open>for _, tag := range tags\<close> of DeleteLocalAll and of DeleteRemoteAll.\<close>

fun DeleteLocalAll_loop :: "'w exec \<Rightarrow> string list \<Rightarrow> 'w \<Rightarrow> error option \<times> 'w" where
  "DeleteLocalAll_loop X [] w = (None, w)"
| "DeleteLocalAll_loop X (tag # tags) w =
     (case DeleteLocal X tag w of
        (Some err, w') \<Rightarrow> (Some (WrappedBulkLocal tag err), w')
      | (None, w') \<Rightarrow> DeleteLocalAll_loop X tags w')"

fun DeleteRemoteAll_loop :: "'w exec \<Rightarrow> string list \<Rightarrow> 'w \<Rightarrow> error option \<times> 'w" where
  "DeleteRemoteAll_loop X [] w = (None, w)"
| "DeleteRemoteAll_loop X (tag # tags) w =
     (case DeleteRemote X tag w of
        (Some err, w') \<Rightarrow> (Some (WrappedBulkRemote tag err), w')
      | (None, w') \<Rightarrow> DeleteRemoteAll_loop X tags w')"

definition DeleteLocalAll :: "'w exec \<Rightarrow> string \<Rightarrow> 'w \<Rightarrow> error option \<times> 'w" where
  "DeleteLocalAll X pattern w =
     (case FindMany X pattern w of
        (Inl err, w') \<Rightarrow> (None, w')
      | (Inr tags, w') \<Rightarrow> DeleteLocalAll_loop X tags w')"

definition DeleteRemoteAll :: "'w exec \<Rightarrow> string \<Rightarrow> 'w \<Rightarrow> error option \<times> 'w" where
  "DeleteRemoteAll X pattern w =
     (case FindMany X pattern w of
        (Inl err, w') \<Rightarrow> (None, w')
      | (Inr tags, w') \<Rightarrow> DeleteRemoteAll_loop X tags w')"

definition DeleteAllTags :: "'w exec \<Rightarrow> 'w \<Rightarrow> error option \<times> 'w" where
  "DeleteAllTags X w =
     (case DeleteLocalAll X ''*'' w of
        (Some err, w') \<Rightarrow> (Some err, w')
      | (None, w') \<Rightarrow>
          (case DeleteRemoteAll X ''*'' w' of
             (Some err, w'') \<Rightarrow> (Some err, w'')
           | (None, w'') \<Rightarrow> (None, w'')))"

section \<open>A reference model of the external tool\<close>

text \<open>
  The executable itself is not part of the package.  Where a property speaks of the tags
  a repository holds, it is read against this model of the five invocations the package
  makes: the names of the local tags, the names of the tags on the remote
  \<open>origin\<close>, and whether the remote can be reached.  Tags of one name are not told
  apart, and nothing but tags is modelled.
\<close>

record repo =
  local_tags :: "string list"
  remote_tags :: "string list"
  reachable :: bool

text \<open>
  The name rules of \<open>git check-ref-format\<close> for the tag \<open>refs/tags/n\<close>: no byte below
  0x20, no 0x7F, none of space, tilde, caret, colon, question mark, asterisk, open
  bracket and backslash; no two dots in a row, no at-sign followed by an open brace; no
  empty component, so no slash at either end and no two slashes in a row; no component
  that begins with a dot or ends with \<open>.lock\<close>; no dot at the end.  \<open>git tag\<close> also
  refuses a name that begins with a dash.  Bytes from 0x80 on are allowed.
\<close>

definition bad_refname_char :: "char \<Rightarrow> bool" where
  "bad_refname_char c =
     (of_char c < (0x20 :: nat) \<or> c = CHR 0x7F \<or> c \<in> set '' ~^:?*['' \<or> c = CHR 0x5C)"

definition valid_component :: "string \<Rightarrow> bool" where
  "valid_component c = (c \<noteq> [] \<and> hd c \<noteq> CHR ''.'' \<and> \<not> suffix ''.lock'' c)"

definition valid_tag_name :: "string \<Rightarrow> bool" where
  "valid_tag_name n =
     (n \<noteq> [] \<and> hd n \<noteq> CHR ''-'' \<and> last n \<noteq> CHR ''.''
      \<and> list_all (\<lambda>c. \<not> bad_refname_char c) n
      \<and> \<not> sublist ''..'' n \<and> \<not> sublist [CHR 0x40, CHR 0x7B] n
      \<and> list_all valid_component (Split n (CHR ''/'')))"


fun wildmatch :: "string \<Rightarrow> string \<Rightarrow> bool" where
  "wildmatch [] [] = True"
| "wildmatch [] (c # cs) = False"
| "wildmatch (p # ps) [] = (p = CHR ''*'' \<and> wildmatch ps [])"
| "wildmatch (p # ps) (c # cs) =
     (if p = CHR ''*'' then wildmatch ps (c # cs) \<or> wildmatch (p # ps) cs
      else (p = CHR ''?'' \<or> p = c) \<and> wildmatch ps cs)"

text \<open>\<open>git tag -a n -m m\<close>: a new annotated tag, refused when the name is taken.\<close>

definition git_tag_create :: "string \<Rightarrow> repo \<Rightarrow> outcome \<times> repo" where
  "git_tag_create n w =
     (if valid_tag_name n \<and> n \<notin> set (local_tags w)
      then (Exited 0 [], w\<lparr>local_tags := n # local_tags w\<rparr>)
      else (Exited 128 [], w))"

text \<open>\<open>git tag -d n\<close>.\<close>

definition git_tag_delete :: "string \<Rightarrow> repo \<Rightarrow> outcome \<times> repo" where
  "git_tag_delete n w =
     (if n \<in> set (local_tags w)
      then (Exited 0 [], w\<lparr>local_tags := removeAll n (local_tags w)\<rparr>)
      else (Exited 1 [], w))"

text \<open>
  \<open>git tag -l p\<close> for a plain pattern \<open>p\<close>: the matching local names in byte order, one
  per line; status 0 also when nothing matches.
\<close>

definition git_tag_list :: "string \<Rightarrow> repo \<Rightarrow> outcome \<times> repo" where
  "git_tag_list p w =
     (Exited 0 (concat (map (\<lambda>n. n @ [CHR 0x0A]) (sort (filter (wildmatch p) (local_tags w))))), w)"

text \<open>\<open>git push origin n\<close>.\<close>

definition git_push :: "string \<Rightarrow> repo \<Rightarrow> outcome \<times> repo" where
  "git_push n w =
     (if \<not> reachable w then (Exited 128 [], w)
      else if n \<notin> set (local_tags w) then (Exited 1 [], w)
      else (Exited 0 [], w\<lparr>remote_tags := List.insert n (remote_tags w)\<rparr>))"

text \<open>\<open>git push origin --delete n\<close>.\<close>

definition git_push_delete :: "string \<Rightarrow> repo \<Rightarrow> outcome \<times> repo" where
  "git_push_delete n w =
     (if \<not> reachable w then (Exited 128 [], w)
      else if n \<notin> set (remote_tags w) then (Exited 1 [], w)
      else (Exited 0 [], w\<lparr>remote_tags := removeAll n (remote_tags w)\<rparr>))"

definition git :: "repo exec" where
  "git argv w =
     (if length argv = 6 \<and> take 3 argv = [''git'', ''tag'', ''-a''] \<and> argv ! 4 = ''-m''
        then git_tag_create (argv ! 3) w
      else if length argv = 4 \<and> take 3 argv = [''git'', ''tag'', ''-d'']
        then git_tag_delete (argv ! 3) w
      else if length argv = 4 \<and> take 3 argv = [''git'', ''tag'', ''-l'']
        then git_tag_list (argv ! 3) w
      else if length argv = 5 \<and> take 4 argv = [''git'', ''push'', ''origin'', ''--delete'']
        then git_push_delete (argv ! 4) w
      else if length argv = 4 \<and> take 3 argv = [''git'', ''push'', ''origin'']
        then git_push (argv ! 3) w
      else (Exited 129 [], w))"

section \<open>Auxiliary facts\<close>

lemma Split_not_Nil: "Split s sep \<noteq> []"
  by (induction s) (auto split: list.splits)

lemma hd_Split: "hd (Split s sep) = takeWhile (\<lambda>c. c \<noteq> sep) s"
  by (induction s) (auto split: list.splits simp: Split_not_Nil)

lemma Split_single_empty: "(Split s sep = [[]]) = (s = [])"
  by (cases s) (auto split: list.splits simp: Split_not_Nil)

lemma no_match_iff:
  "(length (Split s sep) = 0 \<or> (length (Split s sep) = 1 \<and> Split s sep ! 0 = [])) = (s = [])"
proof -
  have "(length (Split s sep) = 1 \<and> Split s sep ! 0 = []) = (Split s sep = [[]])"
    by (cases "Split s sep") auto
  then show ?thesis by (simp add: Split_not_Nil Split_single_empty)
qed

lemma nth0_Split: "Split s sep ! 0 = takeWhile (\<lambda>c. c \<noteq> sep) s"
  using hd_Split [of s sep] Split_not_Nil [of s sep] by (simp add: hd_conv_nth)

lemma cmd_Run_None: "(cmd_Run oc = None) = exits_cleanly oc"
  by (cases oc) (auto simp: exits_cleanly_def)

lemma CreateLocal_traced:
  "CreateLocal (traced X) t m (w, log) =
     (fst (CreateLocal X t m w),
      (snd (CreateLocal X t m w),
       log @ [([''git'', ''tag'', ''-a'', t, ''-m'',
                 if m = [] \<or> m ! 0 = [] then ''chore(release): '' @ t else m ! 0],
               fst (X [''git'', ''tag'', ''-a'', t, ''-m'',
                 if m = [] \<or> m ! 0 = [] then ''chore(release): '' @ t else m ! 0] w))]))"
  by (auto simp: CreateLocal_def traced_def Let_def split: prod.splits option.splits)

lemma CreateRemote_traced:
  "CreateRemote (traced X) t (w, log) =
     (fst (CreateRemote X t w),
      (snd (CreateRemote X t w),
       log @ [([''git'', ''push'', ''origin'', t], fst (X [''git'', ''push'', ''origin'', t] w))]))"
  by (auto simp: CreateRemote_def traced_def split: prod.splits option.splits)

lemma DeleteLocal_traced:
  "DeleteLocal (traced X) t (w, log) =
     (fst (DeleteLocal X t w),
      (snd (DeleteLocal X t w),
       log @ [([''git'', ''tag'', ''-d'', t], fst (X [''git'', ''tag'', ''-d'', t] w))]))"
  by (auto simp: DeleteLocal_def traced_def split: prod.splits option.splits)

lemma DeleteRemote_traced:
  "DeleteRemote (traced X) t (w, log) =
     (fst (DeleteRemote X t w),
      (snd (DeleteRemote X t w),
       log @ [([''git'', ''push'', ''origin'', ''--delete'', t],
               fst (X [''git'', ''push'', ''origin'', ''--delete'', t] w))]))"
  by (auto simp: DeleteRemote_def traced_def split: prod.splits option.splits)

lemma FindMany_traced:
  "FindMany (traced X) p (w, log) =
     (fst (FindMany X p w),
      (snd (FindMany X p w),
       log @ [([''git'', ''tag'', ''-l'', p], fst (X [''git'', ''tag'', ''-l'', p] w))]))"
  by (auto simp: FindMany_def traced_def Let_def split: prod.splits option.splits)

lemma FindOne_traced:
  "FindOne (traced X) p (w, log) =
     (fst (FindOne X p w),
      (snd (FindOne X p w),
       log @ [([''git'', ''tag'', ''-l'', p], fst (X [''git'', ''tag'', ''-l'', p] w))]))"
  by (auto simp: FindOne_def traced_def Let_def split: prod.splits option.splits)

lemma TrimSpace_Nil: "TrimSpace [] = []"
  by (simp add: TrimSpace_def leading_space_def trailing_space_def white_space_def)

lemma no_match_iff':
  "(Split s sep = [] \<or> length (Split s sep) = Suc 0 \<and> Split s sep ! 0 = []) = (s = [])"
  using no_match_iff [of s sep] by simp

lemma FindOne_clean:
  assumes "X [''git'', ''tag'', ''-l'', p] w = (Exited 0 out, w')"
  shows "FindOne X p w =
           (if TrimSpace out = [] then Inl NoMatch
            else Inr (takeWhile (\<lambda>c. c \<noteq> CHR 0x0A) (TrimSpace out)), w')"
proof -
  have "FindOne X p w =
           (if TrimSpace out = [] then Inl NoMatch
            else Inr (Split (TrimSpace out) (CHR 0x0A) ! 0), w')"
    using assms by (simp add: FindOne_def Let_def no_match_iff')
  then show ?thesis by (simp add: nth0_Split)
qed

lemma FindMany_clean:
  assumes "X [''git'', ''tag'', ''-l'', p] w = (Exited 0 out, w')"
  shows "FindMany X p w =
           (if TrimSpace out = [] then Inl NoMatch
            else Inr (Split (TrimSpace out) (CHR 0x0A)), w')"
  using assms by (simp add: FindMany_def Let_def no_match_iff')

lemma DeleteLocal_result:
  "DeleteLocal X t w =
     (map_option DeletionError (cmd_Run (fst (X [''git'', ''tag'', ''-d'', t] w))),
      snd (X [''git'', ''tag'', ''-d'', t] w))"
  by (simp add: DeleteLocal_def split: prod.splits option.splits)

lemma DeleteRemote_result:
  "DeleteRemote X t w =
     (map_option RemoteDeletionError
        (cmd_Run (fst (X [''git'', ''push'', ''origin'', ''--delete'', t] w))),
      snd (X [''git'', ''push'', ''origin'', ''--delete'', t] w))"
  by (simp add: DeleteRemote_def split: prod.splits option.splits)

lemma DeleteLocalAll_loop_log:
  "\<exists>dels. DeleteLocalAll_loop (traced X) tags (w, log) =
            (fst (DeleteLocalAll_loop X tags w), (snd (DeleteLocalAll_loop X tags w), log @ dels))
     \<and> length dels \<le> length tags
     \<and> map fst dels = map (\<lambda>t. [''git'', ''tag'', ''-d'', t]) (take (length dels) tags)
     \<and> list_all (\<lambda>d. exits_cleanly (snd d)) (butlast dels)
     \<and> (case fst (DeleteLocalAll_loop X tags w) of
           None \<Rightarrow> length dels = length tags \<and> list_all (\<lambda>d. exits_cleanly (snd d)) dels
         | Some err \<Rightarrow> dels \<noteq> []
             \<and> map_option (\<lambda>e. WrappedBulkLocal (tags ! (length dels - 1)) (DeletionError e))
                  (cmd_Run (snd (last dels))) = Some err)"
proof (induction tags arbitrary: w log)
  case Nil
  show ?case by simp
next
  case (Cons t ts)
  let ?argv = "[''git'', ''tag'', ''-d'', t]"
  obtain oc w1 where x: "X ?argv w = (oc, w1)" by (cases "X ?argv w")
  show ?case
  proof (cases "cmd_Run oc")
    case (Some e)
    have dl: "DeleteLocal X t w = (Some (DeletionError e), w1)"
      using x Some by (simp add: DeleteLocal_result)
    have "DeleteLocalAll_loop (traced X) (t # ts) (w, log) =
            (Some (WrappedBulkLocal t (DeletionError e)), (w1, log @ [(?argv, oc)]))"
      using x dl by (simp add: DeleteLocal_traced)
    moreover have "DeleteLocalAll_loop X (t # ts) w = (Some (WrappedBulkLocal t (DeletionError e)), w1)"
      using dl by simp
    ultimately show ?thesis
      using Some by (intro exI [of _ "[(?argv, oc)]"]) simp
  next
    case None
    from Cons.IH [of w1 "log @ [(?argv, oc)]"]
    obtain dels where d:
      "DeleteLocalAll_loop (traced X) ts (w1, log @ [(?argv, oc)]) =
         (fst (DeleteLocalAll_loop X ts w1),
          (snd (DeleteLocalAll_loop X ts w1), (log @ [(?argv, oc)]) @ dels))"
      "length dels \<le> length ts"
      "map fst dels = map (\<lambda>t. [''git'', ''tag'', ''-d'', t]) (take (length dels) ts)"
      "list_all (\<lambda>d. exits_cleanly (snd d)) (butlast dels)"
      "(case fst (DeleteLocalAll_loop X ts w1) of
           None \<Rightarrow> length dels = length ts \<and> list_all (\<lambda>d. exits_cleanly (snd d)) dels
         | Some err \<Rightarrow> dels \<noteq> []
             \<and> map_option (\<lambda>e. WrappedBulkLocal (ts ! (length dels - 1)) (DeletionError e))
                  (cmd_Run (snd (last dels))) = Some err)"
      by blast
    have dl: "DeleteLocal X t w = (None, w1)"
      using x None by (simp add: DeleteLocal_result)
    have step: "DeleteLocalAll_loop X (t # ts) w = DeleteLocalAll_loop X ts w1"
      using dl by simp
    have tstep: "DeleteLocalAll_loop (traced X) (t # ts) (w, log) =
            DeleteLocalAll_loop (traced X) ts (w1, log @ [(?argv, oc)])"
      using x dl by (simp add: DeleteLocal_traced)
    have clean: "exits_cleanly oc"
      using None by (simp add: cmd_Run_None)
    show ?thesis
    proof (intro exI [of _ "(?argv, oc) # dels"] conjI)
      show "DeleteLocalAll_loop (traced X) (t # ts) (w, log) =
              (fst (DeleteLocalAll_loop X (t # ts) w),
               snd (DeleteLocalAll_loop X (t # ts) w), log @ (?argv, oc) # dels)"
        using d(1) step tstep by simp
      show "length ((?argv, oc) # dels) \<le> length (t # ts)"
        using d(2) by simp
      show "map fst ((?argv, oc) # dels) =
              map (\<lambda>t. [''git'', ''tag'', ''-d'', t]) (take (length ((?argv, oc) # dels)) (t # ts))"
        using d(3) by simp
      show "list_all (\<lambda>d. exits_cleanly (snd d)) (butlast ((?argv, oc) # dels))"
        using d(4) clean by simp
      show "(case fst (DeleteLocalAll_loop X (t # ts) w) of
               None \<Rightarrow> length ((?argv, oc) # dels) = length (t # ts)
                        \<and> list_all (\<lambda>d. exits_cleanly (snd d)) ((?argv, oc) # dels)
             | Some err \<Rightarrow> (?argv, oc) # dels \<noteq> []
                 \<and> map_option (\<lambda>e. WrappedBulkLocal ((t # ts) ! (length ((?argv, oc) # dels) - 1))
                                      (DeletionError e))
                      (cmd_Run (snd (last ((?argv, oc) # dels)))) = Some err)"
        using d(5) clean unfolding step
        by (cases "fst (DeleteLocalAll_loop X ts w1)") (auto simp: nth_Cons')
    qed
  qed
qed

lemma git_create [simp]: "git [''git'', ''tag'', ''-a'', n, ''-m'', m] w = git_tag_create n w"
  by (simp add: git_def)

lemma git_delete [simp]: "git [''git'', ''tag'', ''-d'', n] w = git_tag_delete n w"
  by (simp add: git_def)

lemma git_list [simp]: "git [''git'', ''tag'', ''-l'', p] w = git_tag_list p w"
  by (simp add: git_def)

lemma git_push_tag [simp]: "git [''git'', ''push'', ''origin'', n] w = git_push n w"
  by (simp add: git_def)

lemma git_push_del [simp]: "git [''git'', ''push'', ''origin'', ''--delete'', n] w = git_push_delete n w"
  by (simp add: git_def)

lemma FindMany_git_world: "snd (FindMany git ''*'' w) = w"
  by (simp add: FindMany_def git_tag_list_def Let_def)

lemma FindMany_git_Inr:
  assumes "fst (FindMany git ''*'' w) = Inr tags"
  shows "local_tags w \<noteq> []"
proof
  assume "local_tags w = []"
  then have "FindMany git ''*'' w = (Inl NoMatch, w)"
    by (simp add: FindMany_clean [of git "''*''" w "[]" w] git_tag_list_def TrimSpace_Nil)
  with assms show False by simp
qed

lemma DeleteLocal_git_frame:
  "remote_tags (snd (DeleteLocal git t w)) = remote_tags w"
  by (simp add: DeleteLocal_result git_tag_delete_def)

lemma DeleteRemote_git_frame:
  "local_tags (snd (DeleteRemote git t w)) = local_tags w"
  by (simp add: DeleteRemote_result git_push_delete_def)

lemma DeleteLocalAll_loop_git_frame:
  "remote_tags (snd (DeleteLocalAll_loop git tags w)) = remote_tags w"
proof (induction tags arbitrary: w)
  case Nil
  show ?case by simp
next
  case (Cons t ts)
  show ?case
    using Cons.IH [of "snd (DeleteLocal git t w)"] DeleteLocal_git_frame [of t w]
    by (cases "DeleteLocal git t w") (auto split: option.splits)
qed

lemma DeleteRemoteAll_loop_git_frame:
  "local_tags (snd (DeleteRemoteAll_loop git tags w)) = local_tags w"
proof (induction tags arbitrary: w)
  case Nil
  show ?case by simp
next
  case (Cons t ts)
  show ?case
    using Cons.IH [of "snd (DeleteRemote git t w)"] DeleteRemote_git_frame [of t w]
    by (cases "DeleteRemote git t w") (auto split: option.splits)
qed

lemma DeleteLocalAll_git_frame:
  "remote_tags (snd (DeleteLocalAll git ''*'' w)) = remote_tags w"
  using FindMany_git_world [of w] DeleteLocalAll_loop_git_frame
  by (cases "FindMany git ''*'' w") (auto simp: DeleteLocalAll_def split: sum.splits)

lemma DeleteRemoteAll_git_frame:
  "local_tags (snd (DeleteRemoteAll git ''*'' w)) = local_tags w"
  using FindMany_git_world [of w] DeleteRemoteAll_loop_git_frame
  by (cases "FindMany git ''*'' w") (auto simp: DeleteRemoteAll_def split: sum.splits)

lemma DeleteRemoteAll_git_no_local:
  assumes "local_tags w = []"
  shows "DeleteRemoteAll git ''*'' w = (None, w)"
  using assms FindMany_git_world [of w] FindMany_git_Inr [of w]
  by (cases "FindMany git ''*'' w") (auto simp: DeleteRemoteAll_def split: sum.splits)

lemma wildmatch_literal:
  "CHR ''*'' \<notin> set p \<Longrightarrow> CHR ''?'' \<notin> set p \<Longrightarrow> wildmatch p s = (s = p)"
  by (induction p s rule: wildmatch.induct) auto

lemma valid_tag_name_chars:
  assumes "valid_tag_name t"
  shows "t \<noteq> []" "CHR ''*'' \<notin> set t" "CHR ''?'' \<notin> set t" "CHR 0x0A \<notin> set t"
proof -
  from assms have a: "\<forall>c\<in>set t. \<not> bad_refname_char c" and "t \<noteq> []"
    by (simp_all add: valid_tag_name_def list_all_iff)
  then show "t \<noteq> []" by simp
  have "bad_refname_char (CHR ''*'')" "bad_refname_char (CHR ''?'')" "bad_refname_char (CHR 0x0A)"
    by (simp_all add: bad_refname_char_def)
  with a show "CHR ''*'' \<notin> set t" "CHR ''?'' \<notin> set t" "CHR 0x0A \<notin> set t"
    by blast+
qed

lemma white_space_last:
  "tok \<in> set white_space \<Longrightarrow> last tok = CHR 0x0A \<Longrightarrow> tok = [CHR 0x0A]"
  by (auto simp: white_space_def)

lemma leading_space_line:
  assumes "t \<noteq> []" and "leading_space t = None"
  shows "leading_space (t @ [CHR 0x0A]) = None"
proof -
  have "\<not> prefix tok (t @ [CHR 0x0A])" if tok: "tok \<in> set white_space" for tok
  proof
    assume "prefix tok (t @ [CHR 0x0A])"
    then consider "tok = t @ [CHR 0x0A]" | "prefix tok t"
      by (auto simp: prefix_snoc)
    then show False
    proof cases
      case 1
      then have "last tok = CHR 0x0A" by simp
      with tok have "tok = [CHR 0x0A]" by (rule white_space_last)
      with 1 assms(1) show False by simp
    next
      case 2
      with tok assms(2) show False
        by (auto simp: leading_space_def find_None_iff)
    qed
  qed
  then show ?thesis by (auto simp: leading_space_def find_None_iff)
qed

lemma trailing_space_line: "trailing_space (t @ [CHR 0x0A]) = Some [CHR 0x0A]"
  by (simp add: trailing_space_def white_space_def)

lemma TrimSpace_line:
  assumes "t \<noteq> []" and "leading_space t = None" and "trailing_space t = None"
  shows "TrimSpace (t @ [CHR 0x0A]) = t"
proof -
  have "TrimLeft (t @ [CHR 0x0A]) = t @ [CHR 0x0A]"
    using leading_space_line [OF assms(1,2)] by simp
  moreover have "TrimRight (t @ [CHR 0x0A]) = TrimRight t"
    using trailing_space_line [of t] by (subst TrimRight.simps) simp
  moreover have "TrimRight t = t"
    using assms(3) by simp
  ultimately show ?thesis by (simp add: TrimSpace_def)
qed

lemma CreateLocal_git_success:
  assumes "CreateLocal git t message w = (None, w')"
  shows "valid_tag_name t" "t \<notin> set (local_tags w)" "w' = w\<lparr>local_tags := t # local_tags w\<rparr>"
  using assms by (auto simp: CreateLocal_def Let_def git_tag_create_def split: if_splits)

lemma DeleteAllTags_git_remote:
  assumes "local_tags (snd (DeleteAllTags git w)) = []"
  shows "remote_tags (snd (DeleteAllTags git w)) = remote_tags w"
proof (cases "DeleteLocalAll git ''*'' w")
  case (Pair r w1)
  have r1: "remote_tags w1 = remote_tags w"
    using DeleteLocalAll_git_frame [of w] Pair by simp
  show ?thesis
  proof (cases r)
    case (Some err)
    with Pair r1 show ?thesis by (simp add: DeleteAllTags_def)
  next
    case None
    have eq: "snd (DeleteAllTags git w) = snd (DeleteRemoteAll git ''*'' w1)"
      using Pair None by (simp add: DeleteAllTags_def split: prod.splits option.splits)
    have "local_tags w1 = []"
      using assms DeleteRemoteAll_git_frame [of w1] unfolding eq by simp
    then have "DeleteRemoteAll git ''*'' w1 = (None, w1)"
      by (rule DeleteRemoteAll_git_no_local)
    with eq r1 show ?thesis by simp
  qed
qed

lemma CreateLocal_then_FindOne:
  assumes "CreateLocal git t message w = (None, w')"
      and "leading_space t = None" and "trailing_space t = None"
  shows "FindOne git t w' = (Inr t, w')"
proof -
  note c = CreateLocal_git_success [OF assms(1)]
  note v = valid_tag_name_chars [OF c(1)]
  have "filter (wildmatch t) (local_tags w') = [t]"
    using c(2,3) v(2,3) by (auto simp: wildmatch_literal filter_empty_conv)
  then have out: "git [''git'', ''tag'', ''-l'', t] w' = (Exited 0 (t @ [CHR 0x0A]), w')"
    by (simp add: git_tag_list_def)
  have "takeWhile (\<lambda>c. c \<noteq> CHR 0x0A) t = t"
    using v(4) by (auto simp: takeWhile_eq_all_conv)
  then show ?thesis
    using v(1) by (simp add: FindOne_clean [of git t w' "t @ [CHR 0x0A]" w', OF out] TrimSpace_line [OF v(1) assms(2,3)])
qed

lemma CreateTag_git_no_rollback:
  assumes "CreateLocal git t message w = (None, w1)"
      and "CreateRemote git t w1 = (Some e, w2)"
  shows "CreateTag git t message w = (Some e, w2) \<and> w2 = w1 \<and> t \<in> set (local_tags w2)"
  using assms CreateLocal_git_success(3) [OF assms(1)]
  by (auto simp: CreateTag_def CreateRemote_def git_push_def split: if_splits)

subsection \<open>What \<open>TrimSpace\<close> removes\<close>

lemma white_space_bytes_all:
  "list_all (\<lambda>tok. tok \<noteq> []
      \<and> hd tok \<in> set [CHR 0x09, CHR 0x0A, CHR 0x0B, CHR 0x0C, CHR 0x0D, CHR 0x20,
                        CHR 0xC2, CHR 0xE1, CHR 0xE2, CHR 0xE3]
      \<and> list_all (\<lambda>c. c \<notin> set [CHR 0x09, CHR 0x0A, CHR 0x0B, CHR 0x0C, CHR 0x0D, CHR 0x20,
                        CHR 0xC2, CHR 0xE1, CHR 0xE2, CHR 0xE3]) (tl tok)) white_space"
  by code_simp

lemma white_space_prefix_free_all:
  "list_all (\<lambda>a. list_all (\<lambda>b. prefix a b \<longrightarrow> a = b) white_space) white_space"
  by code_simp

lemma white_space_bytes:
  assumes "tok \<in> set white_space"
  shows "tok \<noteq> []"
    and "hd tok \<in> set [CHR 0x09, CHR 0x0A, CHR 0x0B, CHR 0x0C, CHR 0x0D, CHR 0x20,
                          CHR 0xC2, CHR 0xE1, CHR 0xE2, CHR 0xE3]"
    and "\<forall>c\<in>set (tl tok). c \<notin> set [CHR 0x09, CHR 0x0A, CHR 0x0B, CHR 0x0C, CHR 0x0D, CHR 0x20,
                          CHR 0xC2, CHR 0xE1, CHR 0xE2, CHR 0xE3]"
  using assms white_space_bytes_all unfolding list_all_iff by blast+

lemma white_space_inner:
  assumes "tok \<in> set white_space" and "tok = us @ vs" and "us \<noteq> []" and "vs \<noteq> []"
  shows "hd vs \<notin> set [CHR 0x09, CHR 0x0A, CHR 0x0B, CHR 0x0C, CHR 0x0D, CHR 0x20,
                          CHR 0xC2, CHR 0xE1, CHR 0xE2, CHR 0xE3]"
proof -
  from assms(2,3,4) have "hd vs \<in> set (tl tok)"
    by (cases us; cases vs) auto
  with white_space_bytes(3) [OF assms(1)] show ?thesis
    by blast
qed

lemma white_space_prefix_free:
  assumes "a \<in> set white_space" and "b \<in> set white_space" and "prefix a b"
  shows "a = b"
  using assms white_space_prefix_free_all unfolding list_all_iff by blast

lemma white_space_suffix_free:
  assumes "a \<in> set white_space" and "b \<in> set white_space" and "suffix a b"
  shows "a = b"
proof (rule ccontr)
  assume ne: "a \<noteq> b"
  from assms(3) obtain us where b: "b = us @ a"
    by (auto simp: suffix_def)
  with ne have "us \<noteq> []" by auto
  with white_space_inner [OF assms(2) b] white_space_bytes(1,2) [OF assms(1)]
  show False by blast
qed

lemma leading_space_None: "(leading_space s = None) = (\<forall>tok\<in>set white_space. \<not> prefix tok s)"
  by (auto simp: leading_space_def find_None_iff)

lemma trailing_space_None: "(trailing_space s = None) = (\<forall>tok\<in>set white_space. \<not> suffix tok s)"
  by (auto simp: trailing_space_def find_None_iff)

lemma leading_space_SomeD:
  "leading_space s = Some tok \<Longrightarrow> tok \<in> set white_space \<and> prefix tok s"
  by (auto simp: leading_space_def find_Some_iff)

lemma trailing_space_SomeD:
  "trailing_space s = Some tok \<Longrightarrow> tok \<in> set white_space \<and> suffix tok s"
  by (auto simp: trailing_space_def find_Some_iff)

declare TrimLeft.simps [simp del] TrimRight.simps [simp del]

lemma TrimLeft_step:
  assumes "tok \<in> set white_space"
  shows "TrimLeft (tok @ r) = TrimLeft r"
proof -
  have "prefix tok (tok @ r)" by simp
  with assms have "\<not> (\<forall>t\<in>set white_space. \<not> prefix t (tok @ r))"
    by blast
  then have "leading_space (tok @ r) \<noteq> None"
    by (simp only: leading_space_None not_False_eq_True)
  then obtain tok' where f: "leading_space (tok @ r) = Some tok'"
    by auto
  from leading_space_SomeD [OF f] have t': "tok' \<in> set white_space" "prefix tok' (tok @ r)"
    by simp_all
  from t'(2) have "prefix tok tok' \<or> prefix tok' tok"
    using prefix_same_cases [of tok "tok @ r" tok'] by auto
  with assms t'(1) have "tok' = tok"
    using white_space_prefix_free by blast
  with f show ?thesis
    by (subst TrimLeft.simps) simp
qed

lemma TrimRight_step:
  assumes "tok \<in> set white_space"
  shows "TrimRight (r @ tok) = TrimRight r"
proof -
  have st: "suffix tok (r @ tok)" by (auto simp: suffix_def)
  with assms have "\<not> (\<forall>t\<in>set white_space. \<not> suffix t (r @ tok))"
    by blast
  then have "trailing_space (r @ tok) \<noteq> None"
    by (simp only: trailing_space_None not_False_eq_True)
  then obtain tok' where f: "trailing_space (r @ tok) = Some tok'"
    by auto
  from trailing_space_SomeD [OF f] have t': "tok' \<in> set white_space" "suffix tok' (r @ tok)"
    by simp_all
  from st t'(2) have "suffix tok tok' \<or> suffix tok' tok"
    by (metis suffix_same_cases)
  with assms t'(1) have "tok' = tok"
    using white_space_suffix_free by blast
  with f show ?thesis
    by (subst TrimRight.simps) simp
qed

lemma TrimLeft_None: "\<forall>tok\<in>set white_space. \<not> prefix tok s \<Longrightarrow> TrimLeft s = s"
  by (subst TrimLeft.simps) (simp add: leading_space_None [symmetric])

lemma TrimRight_None: "\<forall>tok\<in>set white_space. \<not> suffix tok s \<Longrightarrow> TrimRight s = s"
  by (subst TrimRight.simps) (simp add: trailing_space_None [symmetric])

lemma TrimLeft_decomp:
  "\<exists>ls. set ls \<subseteq> set white_space \<and> s = concat ls @ TrimLeft s
        \<and> (\<forall>tok\<in>set white_space. \<not> prefix tok (TrimLeft s))"
proof (induction s rule: length_induct)
  case (1 s)
  show ?case
  proof (cases "\<forall>tok\<in>set white_space. \<not> prefix tok s")
    case True
    then show ?thesis
      using TrimLeft_None [OF True] by (intro exI [of _ "[]"]) simp
  next
    case False
    then obtain tok r where tok: "tok \<in> set white_space" and s: "s = tok @ r"
      by (auto simp: prefix_def)
    from white_space_bytes(1) [OF tok] s have "length r < length s"
      by simp
    with "1.IH" obtain ls where ls:
      "set ls \<subseteq> set white_space" "r = concat ls @ TrimLeft r"
      "\<forall>tok\<in>set white_space. \<not> prefix tok (TrimLeft r)"
      by blast
    have t: "TrimLeft (tok @ r) = TrimLeft r"
      by (rule TrimLeft_step [OF tok])
    have "tok @ r = concat (tok # ls) @ TrimLeft (tok @ r)"
      using ls(2) by (simp add: t)
    with tok ls(1,3) t show ?thesis
      unfolding s by (intro exI [of _ "tok # ls"]) simp
  qed
qed

lemma TrimRight_decomp:
  "\<exists>rs. set rs \<subseteq> set white_space \<and> s = TrimRight s @ concat rs
        \<and> (\<forall>tok\<in>set white_space. \<not> suffix tok (TrimRight s))"
proof (induction s rule: length_induct)
  case (1 s)
  show ?case
  proof (cases "\<forall>tok\<in>set white_space. \<not> suffix tok s")
    case True
    then show ?thesis
      using TrimRight_None [OF True] by (intro exI [of _ "[]"]) simp
  next
    case False
    then obtain tok r where tok: "tok \<in> set white_space" and s: "s = r @ tok"
      by (auto simp: suffix_def)
    from white_space_bytes(1) [OF tok] s have "length r < length s"
      by simp
    with "1.IH" obtain rs where rs:
      "set rs \<subseteq> set white_space" "r = TrimRight r @ concat rs"
      "\<forall>tok\<in>set white_space. \<not> suffix tok (TrimRight r)"
      by blast
    have t: "TrimRight (r @ tok) = TrimRight r"
      by (rule TrimRight_step [OF tok])
    have "r @ tok = (TrimRight r @ concat rs) @ tok"
      using rs(2) by simp
    then have "r @ tok = TrimRight (r @ tok) @ concat (rs @ [tok])"
      by (simp add: t)
    with tok rs(1,3) t show ?thesis
      unfolding s by (intro exI [of _ "rs @ [tok]"]) simp
  qed
qed

lemma white_space_not_Nil:
  "\<forall>tok\<in>set white_space. \<not> prefix tok [] \<and> \<not> suffix tok []"
  using white_space_bytes(1) by auto

lemma TrimSpace_decomp:
  "\<exists>ls rs. set ls \<subseteq> set white_space \<and> set rs \<subseteq> set white_space
     \<and> s = concat ls @ TrimSpace s @ concat rs"
proof -
  from TrimLeft_decomp [of s] obtain ls where
    ls: "set ls \<subseteq> set white_space" "s = concat ls @ TrimLeft s"
    by blast
  from TrimRight_decomp [of "TrimLeft s"] obtain rs where
    rs: "set rs \<subseteq> set white_space" "TrimLeft s = TrimRight (TrimLeft s) @ concat rs"
    by blast
  have "concat ls @ TrimLeft s = concat ls @ TrimSpace s @ concat rs"
    using rs(2) by (simp add: TrimSpace_def)
  with ls(2) have "s = concat ls @ TrimSpace s @ concat rs"
    by simp
  with ls(1) rs(1) show ?thesis by blast
qed

lemma TrimSpace_trimmed:
  assumes "tok \<in> set white_space"
  shows "\<not> prefix tok (TrimSpace s) \<and> \<not> suffix tok (TrimSpace s)"
proof
  from TrimLeft_decomp [of s] have l: "\<not> prefix tok (TrimLeft s)"
    using assms by blast
  from TrimRight_decomp [of "TrimLeft s"] obtain rs where
    rs: "TrimLeft s = TrimRight (TrimLeft s) @ concat rs"
        "\<forall>tok\<in>set white_space. \<not> suffix tok (TrimRight (TrimLeft s))"
    by blast
  show "\<not> prefix tok (TrimSpace s)"
  proof
    assume "prefix tok (TrimSpace s)"
    then have "prefix tok (TrimRight (TrimLeft s) @ concat rs)"
      by (simp add: TrimSpace_def prefix_prefix)
    with rs(1) l show False by simp
  qed
  from rs(2) assms show "\<not> suffix tok (TrimSpace s)"
    by (simp add: TrimSpace_def)
qed

lemma TrimLeft_tokens:
  "set ls \<subseteq> set white_space \<Longrightarrow> TrimLeft (concat ls @ y) = TrimLeft y"
  by (induction ls) (simp_all add: TrimLeft_step)

lemma TrimRight_tokens:
  "set rs \<subseteq> set white_space \<Longrightarrow> TrimRight (y @ concat rs) = TrimRight y"
proof (induction rs rule: rev_induct)
  case Nil
  show ?case by simp
next
  case (snoc tok rs)
  then have tok: "tok \<in> set white_space" and rs: "set rs \<subseteq> set white_space"
    by simp_all
  have "TrimRight ((y @ concat rs) @ tok) = TrimRight (y @ concat rs)"
    by (rule TrimRight_step [OF tok])
  with snoc.IH [OF rs] show ?case by simp
qed

lemma hd_concat_white_space:
  assumes "set rs \<subseteq> set white_space" and "concat rs \<noteq> []"
  shows "hd (concat rs) \<in> set [CHR 0x09, CHR 0x0A, CHR 0x0B, CHR 0x0C, CHR 0x0D, CHR 0x20,
                                 CHR 0xC2, CHR 0xE1, CHR 0xE2, CHR 0xE3]"
proof (cases rs)
  case Nil
  with assms(2) show ?thesis by simp
next
  case (Cons r rest)
  with assms(1) have r: "r \<in> set white_space" by simp
  from white_space_bytes(1) [OF r] Cons have "hd (concat rs) = hd r"
    by simp
  with white_space_bytes(2) [OF r] show ?thesis by simp
qed

lemma no_leading_space_append:
  assumes "m \<noteq> []" and "\<forall>tok\<in>set white_space. \<not> prefix tok m"
      and "set rs \<subseteq> set white_space"
  shows "\<forall>tok\<in>set white_space. \<not> prefix tok (m @ concat rs)"
proof (intro ballI notI)
  fix tok
  assume tok: "tok \<in> set white_space" and p: "prefix tok (m @ concat rs)"
  from p consider "prefix tok m" | us where "tok = m @ us" "prefix us (concat rs)"
    by (auto simp: prefix_append)
  then show False
  proof cases
    case 1
    with tok assms(2) show False by blast
  next
    case 2
    show False
    proof (cases "us = []")
      case True
      with 2(1) have "prefix tok m" by simp
      with tok assms(2) show False by blast
    next
      case False
      from white_space_inner [OF tok 2(1) assms(1) False]
      have a: "hd us \<notin> set [CHR 0x09, CHR 0x0A, CHR 0x0B, CHR 0x0C, CHR 0x0D, CHR 0x20,
                              CHR 0xC2, CHR 0xE1, CHR 0xE2, CHR 0xE3]" .
      from 2(2) obtain zs where z: "concat rs = us @ zs"
        by (auto simp: prefix_def)
      from z False have ne: "concat rs \<noteq> []"
        by (cases us) (simp_all del: concat_eq_Nil_conv)
      from z False have "hd us = hd (concat rs)"
        by (cases us) (simp_all del: concat_eq_Nil_conv)
      with hd_concat_white_space [OF assms(3) ne] a show False
        by simp
    qed
  qed
qed

lemma TrimSpace_unique:
  assumes "set ls \<subseteq> set white_space" and "set rs \<subseteq> set white_space"
      and "\<forall>tok\<in>set white_space. \<not> prefix tok m \<and> \<not> suffix tok m"
  shows "TrimSpace (concat ls @ m @ concat rs) = m"
proof -
  have l: "TrimLeft (concat ls @ m @ concat rs) = TrimLeft (m @ concat rs)"
    by (rule TrimLeft_tokens [OF assms(1)])
  have r: "TrimRight (m @ concat rs) = m"
    using TrimRight_tokens [OF assms(2), of m] TrimRight_None [of m] assms(3) by simp
  show ?thesis
  proof (cases "m = []")
    case True
    have "TrimLeft (concat rs @ []) = TrimLeft []"
      by (rule TrimLeft_tokens [OF assms(2)])
    moreover have "TrimLeft [] = []" "TrimRight [] = []"
      using white_space_not_Nil by (simp_all add: TrimLeft_None TrimRight_None)
    ultimately have "TrimLeft (concat rs) = []"
      by simp
    with True l \<open>TrimRight [] = []\<close> show ?thesis
      by (simp add: TrimSpace_def)
  next
    case False
    from assms(3) have "\<forall>tok\<in>set white_space. \<not> prefix tok m" by blast
    from no_leading_space_append [OF False this assms(2)]
    have "TrimLeft (m @ concat rs) = m @ concat rs"
      by (rule TrimLeft_None)
    with l r show ?thesis
      by (simp add: TrimSpace_def)
  qed
qed


section \<open>The claims\<close>

text \<open>
  Claim C1: when the local repository and the remote each hold at least one tag and every
  invocation succeeds, DeleteAllTags returns success and leaves no tag locally and no
  tag on the remote.

  The code does not do this.  DeleteRemoteAll finds the names to delete on the remote by
  listing the local tags, and DeleteAllTags calls it after DeleteLocalAll has deleted
  them: the second listing prints nothing, so no deletion reaches the remote.  With one
  tag \<open>v1.0.0\<close> on both sides the three invocations all leave with status 0, the call
  returns no error, and the remote still holds \<open>v1.0.0\<close>.  (In the model this is so from
  every repository: \<open>DeleteAllTags_git_remote\<close>.)
\<close>

theorem DeleteAllTags_leaves_remote_tags:
  "DeleteAllTags (traced git)
     (\<lparr>local_tags = [''v1.0.0''], remote_tags = [''v1.0.0''], reachable = True\<rparr>, []) =
   (None,
    (\<lparr>local_tags = [], remote_tags = [''v1.0.0''], reachable = True\<rparr>,
     [([''git'', ''tag'', ''-l'', ''*''], Exited 0 (''v1.0.0'' @ [CHR 0x0A])),
      ([''git'', ''tag'', ''-d'', ''v1.0.0''], Exited 0 []),
      ([''git'', ''tag'', ''-l'', ''*''], Exited 0 [])]))"
  by code_simp

text \<open>
  Claim C2: DeleteLocalAll deletes the names FindMany returns at the time of the call, in
  that order, and stops at the first deletion that fails, returning an error that names
  that tag.

  Whatever the external tool does: the log of DeleteLocalAll is the listing followed by
  \<open>tag -d\<close> for the first \<open>k\<close> names FindMany returned; every deletion before the last
  one logged left cleanly; without an error all names were deleted and every deletion
  left cleanly; with an error the last deletion logged is the one that failed, and the
  error wraps its DeletionError with the name of its tag.  When FindMany fails, nothing
  but the listing is invoked.
\<close>

theorem DeleteLocalAll_sequence:
  "(case FindMany X p w of
      (Inl e, w0) \<Rightarrow>
        DeleteLocalAll (traced X) p (w, []) =
          (None, (w0, [([''git'', ''tag'', ''-l'', p], fst (X [''git'', ''tag'', ''-l'', p] w))]))
    | (Inr tags, w0) \<Rightarrow>
        (\<exists>dels.
           DeleteLocalAll (traced X) p (w, []) =
             (fst (DeleteLocalAll X p w),
              (snd (DeleteLocalAll X p w),
               ([''git'', ''tag'', ''-l'', p], fst (X [''git'', ''tag'', ''-l'', p] w)) # dels))
         \<and> length dels \<le> length tags
         \<and> map fst dels = map (\<lambda>t. [''git'', ''tag'', ''-d'', t]) (take (length dels) tags)
         \<and> list_all (\<lambda>d. exits_cleanly (snd d)) (butlast dels)
         \<and> (case fst (DeleteLocalAll X p w) of
               None \<Rightarrow> length dels = length tags \<and> list_all (\<lambda>d. exits_cleanly (snd d)) dels
             | Some err \<Rightarrow> dels \<noteq> []
                 \<and> map_option (\<lambda>e. WrappedBulkLocal (tags ! (length dels - 1)) (DeletionError e))
                      (cmd_Run (snd (last dels))) = Some err)))"
proof (cases "FindMany X p w")
  case (Pair r w0)
  show ?thesis
  proof (cases r)
    case (Inl e)
    with Pair show ?thesis
      by (simp add: DeleteLocalAll_def FindMany_traced)
  next
    case (Inr tags)
    let ?l = "([''git'', ''tag'', ''-l'', p], fst (X [''git'', ''tag'', ''-l'', p] w))"
    have a: "DeleteLocalAll X p w = DeleteLocalAll_loop X tags w0"
      using Pair Inr by (simp add: DeleteLocalAll_def)
    have b: "DeleteLocalAll (traced X) p (w, []) = DeleteLocalAll_loop (traced X) tags (w0, [?l])"
      using Pair Inr by (simp add: DeleteLocalAll_def FindMany_traced)
    from DeleteLocalAll_loop_log [of X tags w0 "[?l]"]
    show ?thesis
      unfolding Pair Inr a b by simp
  qed
qed

theorem DeleteLocalAll_sequence_witness:
  "FindMany git ''a*''
     \<lparr>local_tags = [[CHR ''a'', CHR 0xC2, CHR 0xA0], ''a''], remote_tags = [], reachable = True\<rparr> =
     (Inr [''a'', ''a''],
      \<lparr>local_tags = [[CHR ''a'', CHR 0xC2, CHR 0xA0], ''a''], remote_tags = [], reachable = True\<rparr>)
   \<and> (\<exists>dels.
        snd (snd (DeleteLocalAll (traced git) ''a*''
          (\<lparr>local_tags = [[CHR ''a'', CHR 0xC2, CHR 0xA0], ''a''], remote_tags = [],
             reachable = True\<rparr>, []))) =
          ([''git'', ''tag'', ''-l'', ''a*''],
           Exited 0 [CHR ''a'', CHR 0x0A, CHR ''a'', CHR 0xC2, CHR 0xA0, CHR 0x0A]) # dels
        \<and> map fst dels = [[''git'', ''tag'', ''-d'', ''a''], [''git'', ''tag'', ''-d'', ''a'']]
        \<and> cmd_Run (snd (last dels)) = Some (ExitError 1))
   \<and> fst (DeleteLocalAll git ''a*''
        \<lparr>local_tags = [[CHR ''a'', CHR 0xC2, CHR 0xA0], ''a''], remote_tags = [],
           reachable = True\<rparr>) =
       Some (WrappedBulkLocal ''a'' (DeletionError (ExitError 1)))"
proof -
  let ?w = "\<lparr>local_tags = [[CHR ''a'', CHR 0xC2, CHR 0xA0], ''a''], remote_tags = [],
              reachable = True\<rparr>"
  let ?l = "([''git'', ''tag'', ''-l'', ''a*''],
             Exited 0 [CHR ''a'', CHR 0x0A, CHR ''a'', CHR 0xC2, CHR 0xA0, CHR 0x0A])"
  have f: "FindMany git ''a*'' ?w = (Inr [''a'', ''a''], ?w)"
    by code_simp
  have l: "fst (git [''git'', ''tag'', ''-l'', ''a*''] ?w) =
             Exited 0 [CHR ''a'', CHR 0x0A, CHR ''a'', CHR 0xC2, CHR 0xA0, CHR 0x0A]"
    by code_simp
  have r: "fst (DeleteLocalAll git ''a*'' ?w) =
             Some (WrappedBulkLocal ''a'' (DeletionError (ExitError 1)))"
    by code_simp
  have c: "DeleteLocalAll (traced git) ''a*'' (?w, []) =
             (Some (WrappedBulkLocal ''a'' (DeletionError (ExitError 1))),
              (\<lparr>local_tags = [[CHR ''a'', CHR 0xC2, CHR 0xA0]], remote_tags = [],
                 reachable = True\<rparr>,
               [?l, ([''git'', ''tag'', ''-d'', ''a''], Exited 0 []),
                ([''git'', ''tag'', ''-d'', ''a''], Exited 1 [])]))"
    by code_simp
  from DeleteLocalAll_sequence [of git "''a*''" ?w]
  obtain dels where d:
    "DeleteLocalAll (traced git) ''a*'' (?w, []) =
       (fst (DeleteLocalAll git ''a*'' ?w), (snd (DeleteLocalAll git ''a*'' ?w), ?l # dels))"
    "map fst dels = map (\<lambda>t. [''git'', ''tag'', ''-d'', t]) (take (length dels) [''a'', ''a''])"
    "map_option (\<lambda>e. WrappedBulkLocal ([''a'', ''a''] ! (length dels - 1)) (DeletionError e))
       (cmd_Run (snd (last dels))) = Some (WrappedBulkLocal ''a'' (DeletionError (ExitError 1)))"
    unfolding f l r by auto
  from d(1) c have dels: "dels = [([''git'', ''tag'', ''-d'', ''a''], Exited 0 []),
                                  ([''git'', ''tag'', ''-d'', ''a''], Exited 1 [])]"
    by simp
  from d(3) have e: "cmd_Run (snd (last dels)) = Some (ExitError 1)"
    by auto
  from d(2) dels have m: "map fst dels = [[''git'', ''tag'', ''-d'', ''a''], [''git'', ''tag'', ''-d'', ''a'']]"
    by simp
  from c have t: "snd (snd (DeleteLocalAll (traced git) ''a*'' (?w, []))) = ?l # dels"
    unfolding dels by simp
  have ex: "\<exists>dels.
        snd (snd (DeleteLocalAll (traced git) ''a*'' (?w, []))) = ?l # dels
        \<and> map fst dels = [[''git'', ''tag'', ''-d'', ''a''], [''git'', ''tag'', ''-d'', ''a'']]
        \<and> cmd_Run (snd (last dels)) = Some (ExitError 1)"
    by (rule exI [of _ dels]) (rule conjI [OF t conjI [OF m e]])
  show ?thesis
    by (rule conjI [OF f conjI [OF ex r]])
qed



text \<open>
  Claim C4: CreateLocal passes the annotation \<open>chore(release): \<close> followed by the tag name
  when it gets no message or an empty first message, and passes a non-empty first
  message as it is.
\<close>

theorem CreateLocal_annotation:
  "map fst (snd (snd (CreateLocal (traced X) t [] (w, [])))) =
     [[''git'', ''tag'', ''-a'', t, ''-m'', ''chore(release): '' @ t]]
   \<and> map fst (snd (snd (CreateLocal (traced X) t ([] # ms) (w, [])))) =
     [[''git'', ''tag'', ''-a'', t, ''-m'', ''chore(release): '' @ t]]
   \<and> (m \<noteq> [] \<longrightarrow> map fst (snd (snd (CreateLocal (traced X) t (m # ms) (w, [])))) =
     [[''git'', ''tag'', ''-a'', t, ''-m'', m]])"
  by (simp add: CreateLocal_traced)

theorem CreateLocal_annotation_witness:
  "''Major release'' \<noteq> []
   \<and> map fst (snd (snd (CreateLocal (traced git) ''v2.0.0'' [''Major release'']
         (\<lparr>local_tags = [], remote_tags = [], reachable = True\<rparr>, [])))) =
       [[''git'', ''tag'', ''-a'', ''v2.0.0'', ''-m'', ''Major release'']]"
  using CreateLocal_annotation [of git "''v2.0.0''"
     "\<lparr>local_tags = [], remote_tags = [], reachable = True\<rparr>" "[]" "''Major release''"]
  by simp

text \<open>
  Claim C5: CreateTag calls CreateLocal first and CreateRemote only when CreateLocal
  succeeded, returns the first failure, and leaves the local tag in place when
  CreateRemote fails.

  Whatever the external tool does: when CreateLocal fails, its error is the result and
  its invocation the only one; when it succeeds, the push follows, its result is the
  result, and nothing is invoked after it.  In the model of the tool, a push that fails
  after the tag was created leaves the tag among the local tags.
\<close>

theorem CreateTag_no_rollback:
  "(case CreateLocal X t message w of
      (Some err, w1) \<Rightarrow>
        CreateTag (traced X) t message (w, []) =
          (Some err, (w1, snd (snd (CreateLocal (traced X) t message (w, [])))))
    | (None, w1) \<Rightarrow>
        CreateTag (traced X) t message (w, []) =
          (fst (CreateRemote X t w1),
           (snd (CreateRemote X t w1),
            snd (snd (CreateLocal (traced X) t message (w, [])))
              @ [([''git'', ''push'', ''origin'', t],
                  fst (X [''git'', ''push'', ''origin'', t] w1))])))
   \<and> (CreateLocal git t message g = (None, g1) \<and> CreateRemote git t g1 = (Some e, g2) \<longrightarrow>
        CreateTag git t message g = (Some e, g2) \<and> g2 = g1 \<and> t \<in> set (local_tags g2))"
proof (rule conjI)
  show "(case CreateLocal X t message w of
      (Some err, w1) \<Rightarrow>
        CreateTag (traced X) t message (w, []) =
          (Some err, (w1, snd (snd (CreateLocal (traced X) t message (w, [])))))
    | (None, w1) \<Rightarrow>
        CreateTag (traced X) t message (w, []) =
          (fst (CreateRemote X t w1),
           (snd (CreateRemote X t w1),
            snd (snd (CreateLocal (traced X) t message (w, [])))
              @ [([''git'', ''push'', ''origin'', t],
                  fst (X [''git'', ''push'', ''origin'', t] w1))])))"
    by (auto simp: CreateTag_def CreateLocal_traced CreateRemote_traced
             split: prod.splits option.splits)
next
  show "CreateLocal git t message g = (None, g1) \<and> CreateRemote git t g1 = (Some e, g2) \<longrightarrow>
        CreateTag git t message g = (Some e, g2) \<and> g2 = g1 \<and> t \<in> set (local_tags g2)"
    using CreateTag_git_no_rollback [of t message g g1 e g2] by blast
qed

theorem CreateTag_no_rollback_witness:
  "CreateLocal git ''v1.0.0'' [] \<lparr>local_tags = [], remote_tags = [], reachable = False\<rparr> =
     (None, \<lparr>local_tags = [''v1.0.0''], remote_tags = [], reachable = False\<rparr>)
   \<and> CreateRemote git ''v1.0.0'' \<lparr>local_tags = [''v1.0.0''], remote_tags = [], reachable = False\<rparr> =
     (Some (PushError (ExitError 128)),
      \<lparr>local_tags = [''v1.0.0''], remote_tags = [], reachable = False\<rparr>)
   \<and> CreateTag git ''v1.0.0'' [] \<lparr>local_tags = [], remote_tags = [], reachable = False\<rparr> =
     (Some (PushError (ExitError 128)),
      \<lparr>local_tags = [''v1.0.0''], remote_tags = [], reachable = False\<rparr>)
   \<and> ''v1.0.0'' \<in> set (local_tags \<lparr>local_tags = [''v1.0.0''], remote_tags = [], reachable = False\<rparr>)"
proof -
  let ?g = "\<lparr>local_tags = [], remote_tags = [], reachable = False\<rparr>"
  let ?g1 = "\<lparr>local_tags = [''v1.0.0''], remote_tags = [], reachable = False\<rparr>"
  have h: "CreateLocal git ''v1.0.0'' [] ?g = (None, ?g1)
         \<and> CreateRemote git ''v1.0.0'' ?g1 = (Some (PushError (ExitError 128)), ?g1)"
    by code_simp
  from CreateTag_no_rollback [of git "''v1.0.0''" "[]" ?g ?g ?g1 "PushError (ExitError 128)" ?g1] h
  show ?thesis by simp
qed

text \<open>
  Claim C6: FindOne captures the listing, trims white space, splits at newlines and
  returns the first entry; it fails with NotFoundError exactly when the trimmed listing
  is empty or the listing process leaves with a status other than 0.

  The first entry of the split is the trimmed listing up to its first newline.  A process
  that could not be started has printed nothing, so its trimmed listing is empty.
  Trimming is said without its definition: the captured listing is white space, then the
  trimmed listing, then white space; no white space begins or ends the trimmed listing;
  and it is the only text of which both hold.
\<close>

theorem FindOne_first_entry:
  assumes "X [''git'', ''tag'', ''-l'', p] w = (oc, w')"
      and "cmd_Output oc = (out, err)"
  shows "((\<exists>e. fst (FindOne X p w) = Inl e) \<longleftrightarrow> TrimSpace out = [] \<or> exits_nonzero oc)
       \<and> (\<forall>e. fst (FindOne X p w) = Inl e \<longrightarrow> is_NotFoundError e)
       \<and> (\<forall>t. fst (FindOne X p w) = Inr t \<longrightarrow>
             t = takeWhile (\<lambda>c. c \<noteq> CHR 0x0A) (TrimSpace out))
       \<and> snd (FindOne X p w) = w'
       \<and> (\<exists>ls rs. set ls \<subseteq> set white_space \<and> set rs \<subseteq> set white_space
             \<and> out = concat ls @ TrimSpace out @ concat rs)
       \<and> (\<forall>tok\<in>set white_space. \<not> prefix tok (TrimSpace out) \<and> \<not> suffix tok (TrimSpace out))
       \<and> (\<forall>ls m rs. set ls \<subseteq> set white_space \<and> set rs \<subseteq> set white_space
             \<and> (\<forall>tok\<in>set white_space. \<not> prefix tok m \<and> \<not> suffix tok m)
             \<and> out = concat ls @ m @ concat rs \<longrightarrow> TrimSpace out = m)"
proof (intro conjI)
  from assms(2) have out: "out = fst (cmd_Output oc)"
    by simp
  have old: "((\<exists>e. fst (FindOne X p w) = Inl e) \<longleftrightarrow> TrimSpace out = [] \<or> exits_nonzero oc)
       \<and> (\<forall>e. fst (FindOne X p w) = Inl e \<longrightarrow> is_NotFoundError e)
       \<and> (\<forall>t. fst (FindOne X p w) = Inr t \<longrightarrow>
             t = takeWhile (\<lambda>c. c \<noteq> CHR 0x0A) (TrimSpace out))
       \<and> snd (FindOne X p w) = w'"
  proof (cases oc)
    case (Exited c out')
    show ?thesis
    proof (cases "c = 0")
      case True
      with Exited assms(1) out show ?thesis
        by (simp add: FindOne_clean exits_nonzero_def)
    next
      case False
      with Exited assms(1) out show ?thesis
        by (simp add: FindOne_def exits_nonzero_def)
    qed
  next
    case NotStarted
    with assms(1) out show ?thesis
      by (simp add: FindOne_def TrimSpace_Nil)
  qed
  from old show "(\<exists>e. fst (FindOne X p w) = Inl e) \<longleftrightarrow> TrimSpace out = [] \<or> exits_nonzero oc"
    by blast
  from old show "\<forall>e. fst (FindOne X p w) = Inl e \<longrightarrow> is_NotFoundError e"
    by blast
  from old show "\<forall>t. fst (FindOne X p w) = Inr t \<longrightarrow>
             t = takeWhile (\<lambda>c. c \<noteq> CHR 0x0A) (TrimSpace out)"
    by blast
  from old show "snd (FindOne X p w) = w'"
    by blast
  show "\<exists>ls rs. set ls \<subseteq> set white_space \<and> set rs \<subseteq> set white_space
             \<and> out = concat ls @ TrimSpace out @ concat rs"
    by (rule TrimSpace_decomp)
  show "\<forall>tok\<in>set white_space. \<not> prefix tok (TrimSpace out) \<and> \<not> suffix tok (TrimSpace out)"
    using TrimSpace_trimmed by blast
  show "\<forall>ls m rs. set ls \<subseteq> set white_space \<and> set rs \<subseteq> set white_space
             \<and> (\<forall>tok\<in>set white_space. \<not> prefix tok m \<and> \<not> suffix tok m)
             \<and> out = concat ls @ m @ concat rs \<longrightarrow> TrimSpace out = m"
    using TrimSpace_unique by blast
qed

theorem FindOne_first_entry_witness:
  "(\<lambda>argv w. (Exited 0 ([CHR 0x20, CHR 0x09, CHR 0xC2, CHR 0xA0, CHR 0x0A] @ ''v1.0.0''
                           @ [CHR 0x0A] @ ''v1.1.0''
                           @ [CHR 0x0A, CHR 0xE3, CHR 0x80, CHR 0x80, CHR 0x0D, CHR 0x0A]), w))
     [''git'', ''tag'', ''-l'', ''v1.*''] () =
     (Exited 0 ([CHR 0x20, CHR 0x09, CHR 0xC2, CHR 0xA0, CHR 0x0A] @ ''v1.0.0''
                @ [CHR 0x0A] @ ''v1.1.0''
                @ [CHR 0x0A, CHR 0xE3, CHR 0x80, CHR 0x80, CHR 0x0D, CHR 0x0A]), ())
   \<and> TrimSpace ([CHR 0x20, CHR 0x09, CHR 0xC2, CHR 0xA0, CHR 0x0A] @ ''v1.0.0''
                 @ [CHR 0x0A] @ ''v1.1.0''
                 @ [CHR 0x0A, CHR 0xE3, CHR 0x80, CHR 0x80, CHR 0x0D, CHR 0x0A]) =
       ''v1.0.0'' @ [CHR 0x0A] @ ''v1.1.0''
   \<and> FindOne (\<lambda>argv w. (Exited 0 ([CHR 0x20, CHR 0x09, CHR 0xC2, CHR 0xA0, CHR 0x0A] @ ''v1.0.0''
                                    @ [CHR 0x0A] @ ''v1.1.0''
                                    @ [CHR 0x0A, CHR 0xE3, CHR 0x80, CHR 0x80, CHR 0x0D, CHR 0x0A]), w))
       ''v1.*'' () = (Inr ''v1.0.0'', ())"
proof -
  let ?out = "[CHR 0x20, CHR 0x09, CHR 0xC2, CHR 0xA0, CHR 0x0A] @ ''v1.0.0''
              @ [CHR 0x0A] @ ''v1.1.0''
              @ [CHR 0x0A, CHR 0xE3, CHR 0x80, CHR 0x80, CHR 0x0D, CHR 0x0A]"
  let ?X = "\<lambda>(argv :: string list) (w :: unit). (Exited 0 ?out, w)"
  have h: "?X [''git'', ''tag'', ''-l'', ''v1.*''] () = (Exited 0 ?out, ())"
    by simp
  have o: "cmd_Output (Exited 0 ?out) = (?out, None)"
    by simp
  have t: "TrimSpace ?out = ''v1.0.0'' @ [CHR 0x0A] @ ''v1.1.0''"
    by code_simp
  have c: "FindOne ?X ''v1.*'' () = (Inr ''v1.0.0'', ())"
    by code_simp
  from FindOne_first_entry [of ?X "''v1.*''" "()" "Exited 0 ?out" "()" ?out None, OF h o] h t c
  show ?thesis by simp
qed

text \<open>
  Claim C7: for every tag name \<open>t\<close>, when all invocations succeed, CreateLocal of \<open>t\<close>
  followed by FindOne of \<open>t\<close> returns exactly \<open>t\<close>.

  FindOne is documented to return the first matching tag, and returns something else
  when the name begins or ends with white space that is not ASCII: such a name is a
  valid tag name, and \<open>strings.TrimSpace\<close>, meant for the newline that ends the listing,
  takes the white space of the name away with it.  For the tag \<open>v1\<close> followed by a
  no-break space (U+00A0, the bytes 0xC2 0xA0) the creation and the listing both leave
  with status 0, and FindOne returns \<open>v1\<close>, which is no tag of the repository.  (For
  names without white space at either end the round trip holds in the model:
  \<open>CreateLocal_then_FindOne\<close>.)
\<close>

theorem FindOne_strips_tag_name:
  "CreateLocal (traced git) [CHR ''v'', CHR ''1'', CHR 0xC2, CHR 0xA0] []
     (\<lparr>local_tags = [], remote_tags = [], reachable = True\<rparr>, []) =
     (None,
      (\<lparr>local_tags = [[CHR ''v'', CHR ''1'', CHR 0xC2, CHR 0xA0]], remote_tags = [],
         reachable = True\<rparr>,
       [([''git'', ''tag'', ''-a'', [CHR ''v'', CHR ''1'', CHR 0xC2, CHR 0xA0], ''-m'',
          ''chore(release): '' @ [CHR ''v'', CHR ''1'', CHR 0xC2, CHR 0xA0]],
         Exited 0 [])]))
   \<and> FindOne (traced git) [CHR ''v'', CHR ''1'', CHR 0xC2, CHR 0xA0]
       (\<lparr>local_tags = [[CHR ''v'', CHR ''1'', CHR 0xC2, CHR 0xA0]], remote_tags = [],
          reachable = True\<rparr>, []) =
       (Inr ''v1'',
        (\<lparr>local_tags = [[CHR ''v'', CHR ''1'', CHR 0xC2, CHR 0xA0]], remote_tags = [],
           reachable = True\<rparr>,
         [([''git'', ''tag'', ''-l'', [CHR ''v'', CHR ''1'', CHR 0xC2, CHR 0xA0]],
           Exited 0 [CHR ''v'', CHR ''1'', CHR 0xC2, CHR 0xA0, CHR 0x0A])]))
   \<and> ''v1'' \<noteq> [CHR ''v'', CHR ''1'', CHR 0xC2, CHR 0xA0]"
  by code_simp

text \<open>
  Claim C8: CreateLocal succeeds if and only if the external process leaves cleanly, and
  when the process leaves with a status other than 0 the result is a CreationError that
  wraps the error of the process.
\<close>

theorem CreateLocal_status:
  assumes "X [''git'', ''tag'', ''-a'', t, ''-m'',
              if message = [] \<or> message ! 0 = [] then ''chore(release): '' @ t
              else message ! 0] w = (oc, w')"
  shows "(fst (CreateLocal X t message w) = None \<longleftrightarrow> exits_cleanly oc)
       \<and> (\<forall>c out. oc = Exited c out \<and> c \<noteq> 0 \<longrightarrow>
             fst (CreateLocal X t message w) = Some (CreationError (ExitError c)))
       \<and> snd (CreateLocal X t message w) = w'"
  using assms by (cases oc) (auto simp: CreateLocal_def Let_def exits_cleanly_def split: if_splits)

theorem CreateLocal_status_witness:
  "git [''git'', ''tag'', ''-a'', ''v1.0.0'', ''-m'', ''chore(release): v1.0.0'']
     \<lparr>local_tags = [''v1.0.0''], remote_tags = [], reachable = True\<rparr> =
     (Exited 128 [], \<lparr>local_tags = [''v1.0.0''], remote_tags = [], reachable = True\<rparr>)
   \<and> \<not> exits_cleanly (Exited 128 [])
   \<and> CreateLocal git ''v1.0.0'' []
       \<lparr>local_tags = [''v1.0.0''], remote_tags = [], reachable = True\<rparr> =
       (Some (CreationError (ExitError 128)),
        \<lparr>local_tags = [''v1.0.0''], remote_tags = [], reachable = True\<rparr>)"
proof -
  let ?w = "\<lparr>local_tags = [''v1.0.0''], remote_tags = [], reachable = True\<rparr>"
  have h': "git [''git'', ''tag'', ''-a'', ''v1.0.0'', ''-m'', ''chore(release): v1.0.0''] ?w =
              (Exited 128 [], ?w)"
    by code_simp
  have n: "\<not> exits_cleanly (Exited 128 [])"
    by (simp add: exits_cleanly_def)
  from CreateLocal_status [of git "''v1.0.0''" "[]" ?w "Exited 128 []" ?w] h' n show ?thesis
    by (simp add: prod_eq_iff)
qed

text \<open>
  Claim C9: DeleteTag calls DeleteLocal and calls DeleteRemote only when DeleteLocal
  succeeded; the first failure ends the call and is returned as it is.

  Whatever the external tool does: when DeleteLocal fails, its error is the result and
  \<open>tag -d\<close> the only invocation; when it succeeds, \<open>push origin --delete\<close> follows from
  the world DeleteLocal left, and the result of DeleteRemote is the result.
\<close>

theorem DeleteTag_short_circuit:
  "(case DeleteLocal X t w of
      (Some err, w1) \<Rightarrow>
        DeleteTag (traced X) t (w, []) =
          (Some err, (w1, [([''git'', ''tag'', ''-d'', t], fst (X [''git'', ''tag'', ''-d'', t] w))]))
    | (None, w1) \<Rightarrow>
        DeleteTag (traced X) t (w, []) =
          (fst (DeleteRemote X t w1),
           (snd (DeleteRemote X t w1),
            [([''git'', ''tag'', ''-d'', t], fst (X [''git'', ''tag'', ''-d'', t] w)),
             ([''git'', ''push'', ''origin'', ''--delete'', t],
              fst (X [''git'', ''push'', ''origin'', ''--delete'', t] w1))])))"
  by (auto simp: DeleteTag_def DeleteLocal_traced DeleteRemote_traced split: prod.splits option.splits)

theorem DeleteTag_short_circuit_witness:
  "DeleteLocal git ''v1.0.0'' \<lparr>local_tags = [''v1.0.0''], remote_tags = [], reachable = True\<rparr> =
     (None, \<lparr>local_tags = [], remote_tags = [], reachable = True\<rparr>)
   \<and> DeleteTag (traced git) ''v1.0.0''
       (\<lparr>local_tags = [''v1.0.0''], remote_tags = [], reachable = True\<rparr>, []) =
       (Some (RemoteDeletionError (ExitError 1)),
        (\<lparr>local_tags = [], remote_tags = [], reachable = True\<rparr>,
         [([''git'', ''tag'', ''-d'', ''v1.0.0''], Exited 0 []),
          ([''git'', ''push'', ''origin'', ''--delete'', ''v1.0.0''], Exited 1 [])]))
   \<and> DeleteTag (traced git) ''v1.0.0''
       (\<lparr>local_tags = [], remote_tags = [''v1.0.0''], reachable = True\<rparr>, []) =
       (Some (DeletionError (ExitError 1)),
        (\<lparr>local_tags = [], remote_tags = [''v1.0.0''], reachable = True\<rparr>,
         [([''git'', ''tag'', ''-d'', ''v1.0.0''], Exited 1 [])]))"
  using DeleteTag_short_circuit [of git "''v1.0.0''"
          "\<lparr>local_tags = [''v1.0.0''], remote_tags = [], reachable = True\<rparr>"]
        DeleteTag_short_circuit [of git "''v1.0.0''"
          "\<lparr>local_tags = [], remote_tags = [''v1.0.0''], reachable = True\<rparr>"]
  by code_simp

text \<open>
  Claim C10: on the same listing, FindOne succeeds exactly when FindMany succeeds, and
  then returns the first element of the list FindMany returns.

  When FindMany fails, FindOne fails with the same error; when FindMany returns a list,
  the list is not empty and FindOne returns its head.
\<close>

theorem FindOne_FindMany:
  "(case fst (FindMany X p w) of
      Inl e \<Rightarrow> fst (FindOne X p w) = Inl e
    | Inr tags \<Rightarrow> tags \<noteq> [] \<and> fst (FindOne X p w) = Inr (hd tags))
   \<and> snd (FindOne X p w) = snd (FindMany X p w)"
  by (auto simp: FindOne_def FindMany_def Let_def hd_conv_nth Split_not_Nil split: prod.splits option.splits)

theorem FindOne_FindMany_witness:
  "fst (FindMany git ''v*''
          \<lparr>local_tags = [''v2.0.0'', ''v1.0.0''], remote_tags = [], reachable = True\<rparr>) =
     Inr [''v1.0.0'', ''v2.0.0'']
   \<and> fst (FindOne git ''v*''
          \<lparr>local_tags = [''v2.0.0'', ''v1.0.0''], remote_tags = [], reachable = True\<rparr>) =
     Inr ''v1.0.0''
   \<and> fst (FindMany git ''x*''
          \<lparr>local_tags = [''v2.0.0'', ''v1.0.0''], remote_tags = [], reachable = True\<rparr>) =
     Inl NoMatch
   \<and> fst (FindOne git ''x*''
          \<lparr>local_tags = [''v2.0.0'', ''v1.0.0''], remote_tags = [], reachable = True\<rparr>) =
     Inl NoMatch"
  using FindOne_FindMany [of git "''v*''"
          "\<lparr>local_tags = [''v2.0.0'', ''v1.0.0''], remote_tags = [], reachable = True\<rparr>"]
        FindOne_FindMany [of git "''x*''"
          "\<lparr>local_tags = [''v2.0.0'', ''v1.0.0''], remote_tags = [], reachable = True\<rparr>"]
  by code_simp

end
